theory Spec2Isabelle
  imports Main "HOL-Library.Word"
begin

section \<open>The expiring cache of internal/pokecache/cache.go\<close>

text \<open>
  The Go package keeps a map from string keys to entries (a payload and the time of
  insertion) behind one mutex. Every method body runs between \<^verbatim>\<open>c.mu.Lock()\<close> and the
  deferred \<^verbatim>\<open>c.mu.Unlock()\<close>, so a call is one step on the cache state; the functions
  below are the bodies of those critical sections. The two effects of the bodies are
  made explicit: the cache a method mutates through its pointer receiver is passed in and
  returned, and the reading of \<^verbatim>\<open>time.Now()\<close> is an argument.
\<close>

subsection \<open>Time\<close>

text \<open>
  A \<^verbatim>\<open>time.Time\<close> taken by \<^verbatim>\<open>time.Now()\<close> carries a reading of the monotonic clock in
  nanoseconds, and \<^verbatim>\<open>t.Sub(u)\<close> of two such values is the difference of the readings as a
  \<^verbatim>\<open>time.Duration\<close> (an int64 count of nanoseconds), saturated at the largest and the
  smallest duration.
\<close>

type_synonym Time = int
type_synonym Duration = int

definition maxDuration :: Duration where
  "maxDuration = 2 ^ 63 - 1"

definition minDuration :: Duration where
  "minDuration = - (2 ^ 63)"

definition Sub :: "Time \<Rightarrow> Time \<Rightarrow> Duration" where
  "Sub t u =
     (if t - u > maxDuration then maxDuration
      else if t - u < minDuration then minDuration
      else t - u)"

subsection \<open>Data\<close>

text \<open>
  A \<^verbatim>\<open>[]byte\<close> is either \<^verbatim>\<open>nil\<close> or a slice of bytes; the cache never looks inside a
  payload and never writes to one, so a slice is modelled by its contents.
\<close>

datatype bytes = NilSlice | Slice "8 word list"

record cacheEntry =
  createdAt :: Time
  val :: bytes

text \<open>
  The field \<^verbatim>\<open>entries\<close> is a Go map: \<open>None\<close> is the nil map of a zero \<^verbatim>\<open>Cache\<close>
  value, \<open>Some m\<close> a map made by \<^verbatim>\<open>make\<close>. Reading and ranging over a nil map behave as
  for an empty one, assigning to one panics.
\<close>

record Cache =
  entries :: "(string \<rightharpoonup> cacheEntry) option"
  interval :: Duration

text \<open>
  The two panics the package can raise: an assignment to an entry of a nil map, and
  \<^verbatim>\<open>time.NewTicker\<close> called with a duration that is not positive.
\<close>

datatype panic = AssignmentToEntryInNilMap | NonPositiveIntervalForNewTicker

subsection \<open>Operations\<close>

text \<open>
  \<^verbatim>\<open>time.NewTicker(d)\<close> panics when \<open>d\<close> is not positive, and otherwise gives a ticker
  of period \<open>d\<close>.
\<close>

definition NewTicker :: "Duration \<Rightarrow> panic + Duration" where
  "NewTicker d = (if d \<le> 0 then Inl NonPositiveIntervalForNewTicker else Inr d)"

text \<open>
  \<^verbatim>\<open>reapLoop\<close> makes its ticker from the interval of the cache and then calls
  \<^verbatim>\<open>reap\<close> at every tick, for ever. The model keeps the making of the ticker, which can
  panic; the passes that follow are the \<open>reap\<close> steps below, taken at arbitrary times.
\<close>

definition reapLoop :: "Cache \<Rightarrow> panic + Duration" where
  "reapLoop c = NewTicker (interval c)"

text \<open>
  \<^verbatim>\<open>NewCache\<close> makes the map, stores the interval and starts \<^verbatim>\<open>reapLoop\<close> in a
  goroutine. Nothing recovers a panic of that goroutine, so it ends the process: with an
  interval that is not positive the construction leaves no cache to call.
\<close>

definition NewCache :: "Duration \<Rightarrow> panic + Cache" where
  "NewCache ival =
     (let c = \<lparr>entries = Some Map.empty, interval = ival\<rparr>
      in case reapLoop c of Inl p \<Rightarrow> Inl p | Inr _ \<Rightarrow> Inr c)"

definition Add :: "Cache \<Rightarrow> Time \<Rightarrow> string \<Rightarrow> bytes \<Rightarrow> panic + Cache" where
  "Add c now key v =
     (case entries c of
        None \<Rightarrow> Inl AssignmentToEntryInNilMap
      | Some m \<Rightarrow> Inr (c\<lparr>entries := Some (m(key \<mapsto> \<lparr>createdAt = now, val = v\<rparr>))\<rparr>))"

text \<open>
  \<^verbatim>\<open>entry, ok := c.entries[key]\<close>: the lookup of the Go map, absent in a nil map.
\<close>

definition lookup :: "Cache \<Rightarrow> string \<Rightarrow> cacheEntry option" where
  "lookup c key = (case entries c of None \<Rightarrow> None | Some m \<Rightarrow> m key)"

text \<open>
  \<open>Get\<close> returns its two results and the cache it leaves behind.
\<close>

definition Get :: "Cache \<Rightarrow> string \<Rightarrow> (bytes \<times> bool) \<times> Cache" where
  "Get c key =
     (case lookup c key of
        None \<Rightarrow> ((NilSlice, False), c)
      | Some entry \<Rightarrow> ((val entry, True), c))"

text \<open>
  The loop of \<^verbatim>\<open>reap\<close> ranges over the map and deletes from it while it runs. Go fixes no
  order for the range, so the order in which it produces the keys is the argument
  \<open>ks\<close>; a key whose entry has been removed before it is reached is not produced, and
  the entry of a produced key is the one the map holds at that moment.
\<close>

fun reap_range :: "Time \<Rightarrow> Duration \<Rightarrow> string list \<Rightarrow> (string \<rightharpoonup> cacheEntry) \<Rightarrow> (string \<rightharpoonup> cacheEntry)" where
  "reap_range now ival [] m = m"
| "reap_range now ival (key # ks) m =
     (case m key of
        None \<Rightarrow> reap_range now ival ks m
      | Some entry \<Rightarrow>
          if Sub now (createdAt entry) > ival
          then reap_range now ival ks (m(key := None))
          else reap_range now ival ks m)"

definition reap :: "Cache \<Rightarrow> Time \<Rightarrow> string list \<Rightarrow> Cache" where
  "reap c now ks =
     (case entries c of
        None \<Rightarrow> c
      | Some m \<Rightarrow> c\<lparr>entries := Some (reap_range now (interval c) ks m)\<rparr>)"

text \<open>
  A range over the map \<open>m\<close> produces each of its keys once.
\<close>

definition range_order :: "(string \<rightharpoonup> cacheEntry) \<Rightarrow> string list \<Rightarrow> bool" where
  "range_order m ks \<longleftrightarrow> distinct ks \<and> set ks = dom m"

subsection \<open>Runs\<close>

text \<open>
  A run is a sequence of calls on one cache; it stops at the first panic.
\<close>

datatype call = CallAdd Time string bytes | CallGet string | CallReap Time "string list"

fun step :: "Cache \<Rightarrow> call \<Rightarrow> panic + Cache" where
  "step c (CallAdd now key v) = Add c now key v"
| "step c (CallGet key) = Inr (snd (Get c key))"
| "step c (CallReap now ks) = Inr (reap c now ks)"

fun run :: "Cache \<Rightarrow> call list \<Rightarrow> panic + Cache" where
  "run c [] = Inr c"
| "run c (x # xs) = (case step c x of Inl p \<Rightarrow> Inl p | Inr c' \<Rightarrow> run c' xs)"

subsection \<open>A scenario\<close>

text \<open>
  A cache with an interval of 50 ms holding three entries, inserted at 0 ms, 70 ms and
  100 ms (times in nanoseconds, as \<^verbatim>\<open>time.Duration\<close> counts them).
\<close>

definition scenario_entries :: "string \<rightharpoonup> cacheEntry" where
  "scenario_entries =
     [''a'' \<mapsto> \<lparr>createdAt = 0, val = Slice [1, 2, 3]\<rparr>,
      ''b'' \<mapsto> \<lparr>createdAt = 70000000, val = Slice [9]\<rparr>,
      ''c'' \<mapsto> \<lparr>createdAt = 100000000, val = NilSlice\<rparr>]"

definition scenario_cache :: Cache where
  "scenario_cache = \<lparr>entries = Some scenario_entries, interval = 50000000\<rparr>"

section \<open>Properties\<close>

subsection \<open>Helper lemmas\<close>

lemma Sub_exact:
  "minDuration \<le> t - u \<Longrightarrow> t - u \<le> maxDuration \<Longrightarrow> Sub t u = t - u"
  by (simp add: Sub_def)

lemma Sub_gt_iff:
  "minDuration \<le> ival \<Longrightarrow> ival < maxDuration \<Longrightarrow> Sub t u > ival \<longleftrightarrow> t - u > ival"
  by (auto simp: Sub_def)

lemma NewCache_positive:
  "0 < ival \<Longrightarrow> NewCache ival = Inr \<lparr>entries = Some Map.empty, interval = ival\<rparr>"
  by (simp add: NewCache_def reapLoop_def NewTicker_def)

lemma NewCache_nonpositive:
  "ival \<le> 0 \<Longrightarrow> NewCache ival = Inl NonPositiveIntervalForNewTicker"
  by (simp add: NewCache_def reapLoop_def NewTicker_def)

lemma lookup_Add:
  "Add c now key v = Inr c' \<Longrightarrow>
   lookup c' k = (if k = key then Some \<lparr>createdAt = now, val = v\<rparr> else lookup c k)"
  by (auto simp: Add_def lookup_def split: option.splits)

lemma Add_made:
  "entries c = Some m \<Longrightarrow>
   Add c now key v = Inr (c\<lparr>entries := Some (m(key \<mapsto> \<lparr>createdAt = now, val = v\<rparr>))\<rparr>)"
  by (simp add: Add_def)

lemma reap_range_apply:
  "reap_range now ival ks m k =
     (case m k of
        None \<Rightarrow> None
      | Some e \<Rightarrow> if k \<in> set ks \<and> Sub now (createdAt e) > ival then None else Some e)"
proof (induction ks arbitrary: m)
  case Nil
  show ?case by (simp split: option.split)
next
  case (Cons key ks)
  show ?case
    by (auto simp: Cons.IH split: option.split)
qed

lemma lookup_made: "entries c = Some m \<Longrightarrow> lookup c k = m k"
  by (simp add: lookup_def)

lemma entries_reap:
  "entries c = Some m \<Longrightarrow> entries (reap c now ks) = Some (reap_range now (interval c) ks m)"
  by (simp add: reap_def)

lemma interval_reap: "interval (reap c now ks) = interval c"
  by (simp add: reap_def split: option.split)

text \<open>
  A made map stays made: no call turns the map of a cache into the nil map, so no call
  on a cache with a made map panics.
\<close>

lemma step_made:
  "entries c \<noteq> None \<Longrightarrow> \<exists>c'. step c x = Inr c' \<and> entries c' \<noteq> None"
  by (cases x) (auto simp: Add_def Get_def reap_def split: option.split)

lemma run_made:
  "entries c \<noteq> None \<Longrightarrow> \<exists>c'. run c xs = Inr c' \<and> entries c' \<noteq> None"
proof (induction xs arbitrary: c)
  case Nil
  then show ?case by simp
next
  case (Cons x xs)
  from step_made [OF Cons.prems] obtain c1
    where c1: "step c x = Inr c1" "entries c1 \<noteq> None" by blast
  from Cons.IH [OF c1(2)] show ?case by (simp add: c1(1))
qed

lemma scenario_made: "entries scenario_cache = Some scenario_entries"
  by (simp add: scenario_cache_def)

lemma scenario_lookup:
  "lookup scenario_cache ''a'' = Some \<lparr>createdAt = 0, val = Slice [1, 2, 3]\<rparr>"
  "lookup scenario_cache ''b'' = Some \<lparr>createdAt = 70000000, val = Slice [9]\<rparr>"
  "lookup scenario_cache ''c'' = Some \<lparr>createdAt = 100000000, val = NilSlice\<rparr>"
  "lookup scenario_cache ''d'' = None"
  by (simp_all add: lookup_def scenario_cache_def scenario_entries_def)

lemma scenario_ages:
  "Sub 120000000 0 > interval scenario_cache"
  "Sub 120000000 70000000 = interval scenario_cache"
  "Sub 120000000 100000000 \<le> interval scenario_cache"
  by (simp_all add: Sub_def scenario_cache_def maxDuration_def minDuration_def)

section \<open>Claims\<close>

subsection \<open>Write, then read\<close>

text \<open>
  C1. On a cache whose map has been made, \<open>Add\<close> of a key \<open>k\<close> and a payload \<open>v\<close>
  returns, and \<open>Get\<close> of \<open>k\<close> on the cache it leaves returns the pair \<open>(v, true)\<close>.
\<close>

theorem C1_Add_then_Get:
  "entries c = Some m \<Longrightarrow> \<exists>c'. Add c now k v = Inr c' \<and> fst (Get c' k) = (v, True)"
  by (simp add: Add_def Get_def lookup_def)

theorem C1_Add_then_Get_witness:
  "NewCache 50000000 = Inr \<lparr>entries = Some Map.empty, interval = 50000000\<rparr>
   \<and> entries \<lparr>entries = Some Map.empty, interval = 50000000\<rparr> = Some Map.empty
   \<and> (\<exists>c'. Add \<lparr>entries = Some Map.empty, interval = 50000000\<rparr> 0 ''a'' (Slice [1, 2, 3])
             = Inr c'
          \<and> fst (Get c' ''a'') = (Slice [1, 2, 3], True))"
proof -
  let ?c = "\<lparr>entries = Some Map.empty, interval = 50000000\<rparr>"
  have n: "NewCache 50000000 = Inr ?c"
    by (simp add: NewCache_positive)
  have h: "entries ?c = Some Map.empty"
    by simp
  show ?thesis
    using n C1_Add_then_Get [OF h, of 0 "''a''" "Slice [1, 2, 3]"] by simp
qed

text \<open>
  C2. Two calls of \<open>Add\<close> on one key, with payloads \<open>v1\<close> and then \<open>v2\<close>: \<open>Get\<close> of
  the key returns \<open>(v2, true)\<close>, not \<open>v1\<close> when the two payloads differ, and the
  cache is the one the second call alone would have left: the first entry is overwritten
  without a trace.
\<close>

theorem C2_second_Add_overwrites:
  "entries c = Some m \<Longrightarrow>
   \<exists>c1 c2. Add c t1 k v1 = Inr c1 \<and> Add c1 t2 k v2 = Inr c2
     \<and> fst (Get c2 k) = (v2, True)
     \<and> (v1 \<noteq> v2 \<longrightarrow> fst (fst (Get c2 k)) \<noteq> v1)
     \<and> Add c t2 k v2 = Inr c2"
  by (simp add: Add_def Get_def lookup_def)

theorem C2_second_Add_overwrites_witness:
  "NewCache 1000000000 = Inr \<lparr>entries = Some Map.empty, interval = 1000000000\<rparr>
   \<and> entries \<lparr>entries = Some Map.empty, interval = 1000000000\<rparr> = Some Map.empty
   \<and> Slice [9] \<noteq> Slice [8]
   \<and> (\<exists>c1 c2.
          Add \<lparr>entries = Some Map.empty, interval = 1000000000\<rparr> 0 ''x'' (Slice [9]) = Inr c1
          \<and> Add c1 1 ''x'' (Slice [8]) = Inr c2
          \<and> fst (Get c2 ''x'') = (Slice [8], True)
          \<and> fst (fst (Get c2 ''x'')) \<noteq> Slice [9]
          \<and> Add \<lparr>entries = Some Map.empty, interval = 1000000000\<rparr> 1 ''x'' (Slice [8])
              = Inr c2)"
proof -
  let ?c = "\<lparr>entries = Some Map.empty, interval = 1000000000\<rparr>"
  have n: "NewCache 1000000000 = Inr ?c"
    by (simp add: NewCache_positive)
  have h: "entries ?c = Some Map.empty"
    by simp
  show ?thesis
    using n C2_second_Add_overwrites [OF h, of 0 "''x''" "Slice [9]" 1 "Slice [8]"] by simp
qed

subsection \<open>A fresh cache\<close>

text \<open>
  C3. With a positive interval \<open>NewCache\<close> returns a cache; it holds an empty map
  and the given interval, and \<open>Get\<close> on it misses for every key: the payload returned
  is nil and the flag is false.
\<close>

theorem C3_miss_on_fresh_cache:
  "0 < ival \<Longrightarrow>
   \<exists>c. NewCache ival = Inr c
     \<and> entries c = Some Map.empty
     \<and> interval c = ival
     \<and> fst (Get c k) = (NilSlice, False)"
  by (simp add: NewCache_positive Get_def lookup_def)

theorem C3_miss_on_fresh_cache_witness:
  "(0::int) < 50000000
   \<and> NewCache 50000000 = Inr \<lparr>entries = Some Map.empty, interval = 50000000\<rparr>
   \<and> (\<exists>c. NewCache 50000000 = Inr c
        \<and> entries c = Some Map.empty
        \<and> interval c = 50000000
        \<and> fst (Get c ''a'') = (NilSlice, False))"
proof -
  have h: "(0::int) < 50000000"
    by simp
  show ?thesis
    using h C3_miss_on_fresh_cache [OF h, of "''a''"] by (simp add: NewCache_positive)
qed

subsection \<open>One pass of the sweep\<close>

text \<open>
  C4. One pass of \<open>reap\<close> at the time \<open>now\<close>, over a map \<open>m\<close> whose keys the range
  produces in any order \<open>ks\<close>, leaves a map \<open>m'\<close> in which an entry of \<open>m\<close> is gone
  when its age \<open>now.Sub(createdAt)\<close> is greater than the interval, and is kept as it
  was, payload and time of creation, when its age is at most the interval, so also when
  it is exactly the interval; no other key appears, and the interval is unchanged.
\<close>

theorem C4_reap_removes_exactly_the_expired:
  assumes "entries c = Some m" and "range_order m ks"
  shows "\<exists>m'. entries (reap c now ks) = Some m'
     \<and> interval (reap c now ks) = interval c
     \<and> (\<forall>k e. m k = Some e \<longrightarrow> Sub now (createdAt e) > interval c \<longrightarrow> m' k = None)
     \<and> (\<forall>k e. m k = Some e \<longrightarrow> Sub now (createdAt e) \<le> interval c \<longrightarrow> m' k = Some e)
     \<and> (\<forall>k e. m k = Some e \<longrightarrow> Sub now (createdAt e) = interval c \<longrightarrow> m' k = Some e)
     \<and> (\<forall>k. m k = None \<longrightarrow> m' k = None)"
proof -
  let ?m' = "reap_range now (interval c) ks m"
  have mem: "k \<in> set ks" if "m k = Some e" for k e
    using that assms(2) by (auto simp: range_order_def)
  have "entries (reap c now ks) = Some ?m'"
    using assms(1) by (rule entries_reap)
  moreover have "interval (reap c now ks) = interval c"
    by (rule interval_reap)
  moreover have "?m' k = None" if "m k = Some e" "Sub now (createdAt e) > interval c" for k e
    using that mem [OF that(1)] by (simp add: reap_range_apply)
  moreover have "?m' k = Some e" if "m k = Some e" "Sub now (createdAt e) \<le> interval c" for k e
    using that by (simp add: reap_range_apply)
  moreover have "?m' k = None" if "m k = None" for k
    using that by (simp add: reap_range_apply)
  ultimately show ?thesis by auto
qed

text \<open>
  In the scenario, a pass at 120 ms removes \<open>a\<close> (aged 120 ms), keeps \<open>b\<close> (aged
  exactly the interval) and \<open>c\<close> (aged 20 ms), and adds nothing.
\<close>

theorem C4_reap_removes_exactly_the_expired_witness:
  "entries scenario_cache = Some scenario_entries
   \<and> range_order scenario_entries [''b'', ''a'', ''c'']
   \<and> Sub 120000000 0 > interval scenario_cache
   \<and> Sub 120000000 70000000 = interval scenario_cache
   \<and> Sub 120000000 100000000 \<le> interval scenario_cache
   \<and> lookup (reap scenario_cache 120000000 [''b'', ''a'', ''c'']) ''a'' = None
   \<and> lookup (reap scenario_cache 120000000 [''b'', ''a'', ''c'']) ''b''
       = Some \<lparr>createdAt = 70000000, val = Slice [9]\<rparr>
   \<and> lookup (reap scenario_cache 120000000 [''b'', ''a'', ''c'']) ''c''
       = Some \<lparr>createdAt = 100000000, val = NilSlice\<rparr>
   \<and> lookup (reap scenario_cache 120000000 [''b'', ''a'', ''c'']) ''d'' = None"
proof -
  let ?ks = "[''b'', ''a'', ''c'']"
  have h1: "entries scenario_cache = Some scenario_entries"
    by (rule scenario_made)
  have h2: "range_order scenario_entries ?ks"
    by (auto simp: range_order_def scenario_entries_def)
  have a: "scenario_entries ''a'' = Some \<lparr>createdAt = 0, val = Slice [1, 2, 3]\<rparr>"
    and b: "scenario_entries ''b'' = Some \<lparr>createdAt = 70000000, val = Slice [9]\<rparr>"
    and c: "scenario_entries ''c'' = Some \<lparr>createdAt = 100000000, val = NilSlice\<rparr>"
    and d: "scenario_entries ''d'' = None"
    by (simp_all add: scenario_entries_def)
  from C4_reap_removes_exactly_the_expired [OF h1 h2, of 120000000]
  obtain m' where m': "entries (reap scenario_cache 120000000 ?ks) = Some m'"
    and gone: "\<And>k e. scenario_entries k = Some e \<Longrightarrow>
                 Sub 120000000 (createdAt e) > interval scenario_cache \<Longrightarrow> m' k = None"
    and kept: "\<And>k e. scenario_entries k = Some e \<Longrightarrow>
                 Sub 120000000 (createdAt e) \<le> interval scenario_cache \<Longrightarrow> m' k = Some e"
    and other: "\<And>k. scenario_entries k = None \<Longrightarrow> m' k = None"
    by blast
  have "m' ''a'' = None"
    using gone [OF a] scenario_ages(1) by simp
  moreover have "m' ''b'' = Some \<lparr>createdAt = 70000000, val = Slice [9]\<rparr>"
    using kept [OF b] scenario_ages(2) by simp
  moreover have "m' ''c'' = Some \<lparr>createdAt = 100000000, val = NilSlice\<rparr>"
    using kept [OF c] scenario_ages(3) by simp
  moreover have "m' ''d'' = None"
    using other [OF d] .
  ultimately show ?thesis
    using h1 h2 scenario_ages by (simp add: lookup_made [OF m'])
qed

subsection \<open>No expiry on the read path\<close>

text \<open>
  C5. \<open>Get\<close> checks no age: it takes no reading of the clock, and for a key whose
  entry \<open>e\<close> the map holds it returns the payload of \<open>e\<close> with the flag true, whatever
  the time of creation of \<open>e\<close> and the interval are. An entry older than the interval
  stays retrievable in this way until a pass of \<open>reap\<close> that reaches its key removes it,
  after which \<open>Get\<close> misses.
\<close>

theorem C5_Get_checks_no_age:
  "lookup c k = Some e \<Longrightarrow>
   fst (Get c k) = (val e, True)
   \<and> (\<forall>now ks. k \<in> set ks \<longrightarrow> Sub now (createdAt e) > interval c \<longrightarrow>
         fst (Get (reap c now ks) k) = (NilSlice, False))"
  by (auto simp: Get_def lookup_def reap_def reap_range_apply split: option.splits)

theorem C5_Get_checks_no_age_witness:
  "lookup scenario_cache ''a'' = Some \<lparr>createdAt = 0, val = Slice [1, 2, 3]\<rparr>
   \<and> Sub 120000000 0 > interval scenario_cache
   \<and> fst (Get scenario_cache ''a'') = (Slice [1, 2, 3], True)
   \<and> fst (Get (reap scenario_cache 120000000 [''c'', ''a'', ''b'']) ''a'') = (NilSlice, False)"
proof -
  have h: "lookup scenario_cache ''a'' = Some \<lparr>createdAt = 0, val = Slice [1, 2, 3]\<rparr>"
    by (rule scenario_lookup(1))
  show ?thesis
    using h scenario_ages(1) C5_Get_checks_no_age [OF h] by simp
qed

subsection \<open>Independent keys\<close>

text \<open>
  C6. \<open>Add\<close> of a key \<open>k1\<close> leaves every other key \<open>k2\<close> as it was: the map holds the
  same entry for \<open>k2\<close> (or none) as before, and \<open>Get\<close> of \<open>k2\<close> returns what it
  returned before.
\<close>

theorem C6_Add_leaves_other_keys:
  "entries c = Some m \<Longrightarrow> k1 \<noteq> k2 \<Longrightarrow>
   \<exists>c'. Add c now k1 v1 = Inr c'
     \<and> lookup c' k2 = lookup c k2
     \<and> fst (Get c' k2) = fst (Get c k2)"
  by (simp add: Add_def Get_def lookup_def split: option.split)

theorem C6_Add_leaves_other_keys_witness:
  "entries scenario_cache = Some scenario_entries \<and> ''a'' \<noteq> ''b''
   \<and> (\<exists>c'. Add scenario_cache 110000000 ''a'' (Slice [7]) = Inr c'
        \<and> lookup c' ''b'' = Some \<lparr>createdAt = 70000000, val = Slice [9]\<rparr>
        \<and> fst (Get c' ''b'') = (Slice [9], True))"
proof -
  have h1: "entries scenario_cache = Some scenario_entries"
    by (rule scenario_made)
  have h2: "''a'' \<noteq> ''b''"
    by simp
  have g: "fst (Get scenario_cache ''b'') = (Slice [9], True)"
    by (simp add: Get_def scenario_lookup(2))
  show ?thesis
    using h1 C6_Add_leaves_other_keys [OF h1 h2, of 110000000 "Slice [7]"]
      scenario_lookup(2) g
    by auto
qed

subsection \<open>Overwriting resets the age\<close>

text \<open>
  C7. \<open>Add\<close> on a key that the map already holds replaces the entry: the new entry
  has the time of the call as its time of creation and the new payload, and the cache
  left behind is the same whatever the old entry was, so nothing of the old payload or
  time is kept.
\<close>

theorem C7_Add_replaces_entry:
  "entries c = Some m \<Longrightarrow> m k = Some old \<Longrightarrow>
   \<exists>c'. Add c now k v = Inr c'
     \<and> lookup c' k = Some \<lparr>createdAt = now, val = v\<rparr>
     \<and> (\<forall>old'. Add (c\<lparr>entries := Some (m(k \<mapsto> old'))\<rparr>) now k v = Inr c')"
  by (simp add: Add_def lookup_def)

theorem C7_Add_replaces_entry_witness:
  "entries scenario_cache = Some scenario_entries
   \<and> scenario_entries ''a'' = Some \<lparr>createdAt = 0, val = Slice [1, 2, 3]\<rparr>
   \<and> (\<exists>c'. Add scenario_cache 110000000 ''a'' (Slice [7]) = Inr c'
        \<and> lookup c' ''a'' = Some \<lparr>createdAt = 110000000, val = Slice [7]\<rparr>
        \<and> Add (scenario_cache\<lparr>entries :=
                  Some (scenario_entries(''a'' \<mapsto> \<lparr>createdAt = 5, val = NilSlice\<rparr>))\<rparr>)
              110000000 ''a'' (Slice [7]) = Inr c')"
proof -
  have h1: "entries scenario_cache = Some scenario_entries"
    by (rule scenario_made)
  have h2: "scenario_entries ''a'' = Some \<lparr>createdAt = 0, val = Slice [1, 2, 3]\<rparr>"
    by (simp add: scenario_entries_def)
  show ?thesis
    using h1 h2 C7_Add_replaces_entry [OF h1 h2, of 110000000 "Slice [7]"] by blast
qed

subsection \<open>No errors\<close>

text \<open>
  C8. The calls signal no error. With a positive interval \<open>NewCache\<close> returns a
  cache, and after any sequence of calls on it the run has not panicked; on the cache
  \<open>c\<close> it has reached, \<open>Add\<close> of any key and payload returns, and \<open>Get\<close> of any
  key returns a payload and a flag that is false exactly when the map holds no entry for
  the key: absence is reported by the flag alone.
\<close>

theorem C8_calls_never_fail:
  "0 < ival \<Longrightarrow>
   \<exists>c0 c. NewCache ival = Inr c0
     \<and> run c0 calls = Inr c
     \<and> (\<exists>c'. Add c now k v = Inr c')
     \<and> (\<exists>p. Get c k = ((p, lookup c k \<noteq> None), c))"
proof -
  assume pos: "0 < ival"
  let ?c0 = "\<lparr>entries = Some Map.empty, interval = ival\<rparr>"
  have new: "NewCache ival = Inr ?c0"
    using pos by (rule NewCache_positive)
  have "entries ?c0 \<noteq> None"
    by simp
  from run_made [OF this, of calls] obtain c
    where c: "run ?c0 calls = Inr c" "entries c \<noteq> None" by blast
  from c(2) have "\<exists>c'. Add c now k v = Inr c'"
    by (auto simp: Add_def)
  moreover have "\<exists>p. Get c k = ((p, lookup c k \<noteq> None), c)"
    by (simp add: Get_def split: option.split)
  ultimately show ?thesis
    using new c(1) by blast
qed

text \<open>
  A run on a cache of 50 ms: an entry is added at 0 ms, read, swept at 120 ms and read
  again; then \<open>Add\<close> and \<open>Get\<close> are called once more on the cache reached.
\<close>

theorem C8_calls_never_fail_witness:
  "(0::int) < 50000000
   \<and> (\<exists>c0 c. NewCache 50000000 = Inr c0
        \<and> run c0 [CallAdd 0 ''a'' (Slice [1, 2, 3]), CallGet ''a'',
                   CallReap 120000000 [''a''], CallGet ''a''] = Inr c
        \<and> (\<exists>c'. Add c 130000000 ''a'' (Slice [7]) = Inr c')
        \<and> (\<exists>p. Get c ''a'' = ((p, lookup c ''a'' \<noteq> None), c)))"
proof -
  have h: "(0::int) < 50000000"
    by simp
  show ?thesis
    using h C8_calls_never_fail [OF h,
        of "[CallAdd 0 ''a'' (Slice [1, 2, 3]), CallGet ''a'',
             CallReap 120000000 [''a''], CallGet ''a'']" 130000000 "''a''" "Slice [7]"]
    by blast
qed

subsection \<open>Reading changes nothing\<close>

text \<open>
  C10. \<open>Get\<close> is a pure read: on a hit and on a miss the cache it leaves behind is the
  cache it was called on, with the same map, entries and interval.
\<close>

theorem C10_Get_leaves_cache_unchanged:
  "snd (Get c k) = c"
  by (simp add: Get_def split: option.split)

end
